theory Spec2Isabelle
  imports Main "HOL-Library.Sublist"
begin

section \<open>Values of the host language\<close>

text \<open>
  The hooks of \<^verbatim>\<open>src/hooks/useV3Positions.ts\<close> are pure functions of what the hooks
  they call return in the same render: the memoised values are recomputed from their
  dependencies, so each hook is modelled as a function of its arguments and of an
  environment that holds the results of the external hooks.

  A \<^verbatim>\<open>BigNumber\<close> is an unbounded integer; \<^verbatim>\<open>BigNumber.from\<close> of a BigNumber, or of
  its decimal string, is that integer again. A value that may be \<^verbatim>\<open>undefined\<close> (or
  \<^verbatim>\<open>null\<close>) is an \<open>option\<close>. An exception thrown while a hook runs is an
  \<open>Inl\<close> result.
\<close>

datatype js_error = TypeError | NumericFault

type_synonym BigNumber = int

definition AddressZero :: string where
  "AddressZero = ''0x0000000000000000000000000000000000000000''"

text \<open>Truthiness of a value of type \<^verbatim>\<open>string | null | undefined\<close>: defined and not empty.\<close>

definition truthy :: "string option \<Rightarrow> bool" where
  "truthy v = (case v of None \<Rightarrow> False | Some s \<Rightarrow> s \<noteq> [])"

text \<open>
  \<^verbatim>\<open>BigNumber.toNumber()\<close> throws a fault when the value does not fit 53 bits (the
  source's comment: "we don't expect any account balance to ever exceed the bounds of
  max safe int").
\<close>

definition toNumber :: "BigNumber \<Rightarrow> js_error + int" where
  "toNumber b = (if \<bar>b\<bar> < 2 ^ 53 then Inr b else Inl NumericFault)"

text \<open>
  The decimal string that a template literal makes of an integral number (below
  \<^verbatim>\<open>1e21\<close> in absolute value; a fee tier is a 24-bit integer).
\<close>

fun digits :: "nat \<Rightarrow> string" where
  "digits n = (if n < 10 then [char_of (48 + n)]
               else digits (n div 10) @ [char_of (48 + n mod 10)])"

declare digits.simps [simp del]

definition number_toString :: "int \<Rightarrow> string" where
  "number_toString i = (if i < 0 then CHR ''-'' # digits (nat (- i)) else digits (nat i))"

fun collect :: "('e + 'a) list \<Rightarrow> 'e + 'a list" where
  "collect [] = Inr []"
| "collect (x # xs) =
     (case x of
        Inl e \<Rightarrow> Inl e
      | Inr v \<Rightarrow> (case collect xs of Inl e \<Rightarrow> Inl e | Inr vs \<Rightarrow> Inr (v # vs)))"

section \<open>Data model\<close>

text \<open>
  The state of one contract call, as \<^verbatim>\<open>useSingleCallResult\<close> and
  \<^verbatim>\<open>useSingleContractMultipleData\<close> return it. The \<^verbatim>\<open>Result\<close> of a call is the decoded
  return tuple: for \<^verbatim>\<open>ownerOf\<close>, \<^verbatim>\<open>deposits\<close>, \<^verbatim>\<open>tokenOfOwnerByIndex\<close> and \<^verbatim>\<open>balanceOf\<close>
  the model keeps its component 0, the only one the source reads; for \<^verbatim>\<open>positions\<close> it
  is the record of the named components.
\<close>

record 'r CallState =
  result :: "'r option"
  loading :: bool
  error :: bool

record Token =
  address :: string

record Pool =
  token0 :: Token
  token1 :: Token
  fee :: int
  tickCurrent :: int

text \<open>
  An incentive comes from the external hook \<^verbatim>\<open>useAllIncentives\<close>; the source reads its
  pool only, and \<open>payload\<close> stands for its other fields.
\<close>

record 'd Incentive =
  pool :: Pool
  payload :: 'd

text \<open>
  A tick bound is \<open>Some n\<close> when its \<^verbatim>\<open>typeof\<close> is \<^verbatim>\<open>'number'\<close> (ticks are 24-bit
  integers, on which the comparisons of numbers are those of integers) and \<open>None\<close>
  for any other value.
\<close>

record PositionInfo =
  nonce :: BigNumber
  operator :: string
  token0 :: string
  token1 :: string
  fee :: int
  tickLower :: "int option"
  tickUpper :: "int option"
  liquidity :: BigNumber
  feeGrowthInside0LastX128 :: BigNumber
  feeGrowthInside1LastX128 :: BigNumber
  tokensOwed0 :: BigNumber
  tokensOwed1 :: BigNumber

record 'd PositionDetails = PositionInfo +
  tokenId :: BigNumber
  owner :: string
  depositedInStaker :: bool
  incentives :: "'d Incentive list"

record 'd UseV3PositionsResults =
  loading :: bool
  error :: bool
  positions :: "'d PositionDetails list option"

record 'd PositionsForPoolResults =
  loading :: bool
  inRangePositions :: "'d PositionDetails list option"
  outOfRangePositions :: "'d PositionDetails list option"

text \<open>
  Modelled from the spec: the enum \<^verbatim>\<open>DepositedTokenIdsState\<close> is declared in
  \<^verbatim>\<open>./incentives/useDepositedTokenIds\<close>, which is not among the sources, and the spec
  does not list its members. The source reads the member \<^verbatim>\<open>LOADING\<close> only; the two
  other members stand for the states that are not \<^verbatim>\<open>LOADING\<close>.
\<close>

datatype DepositedTokenIdsState = LOADING | LOADED | ERROR

record DepositedTokenIds =
  state :: DepositedTokenIdsState
  tokenIds :: "BigNumber list option"

record 'd AllIncentives =
  incentives :: "'d Incentive list option"
  loading :: bool

text \<open>
  The external hooks. A batched call is a function of its list of call inputs; nothing
  is assumed of it, not even that it returns one call state for each input. An account
  is \<open>None\<close> when it is \<^verbatim>\<open>null\<close> or \<^verbatim>\<open>undefined\<close>.
\<close>

record 'd Hooks =
  positions_calls :: "BigNumber list list \<Rightarrow> PositionInfo CallState list"
  ownerOf_calls :: "BigNumber list list \<Rightarrow> string CallState list"
  deposits_calls :: "BigNumber list list \<Rightarrow> string CallState list"
  useAllIncentives :: "'d AllIncentives"
  balanceOf_call :: "string option \<Rightarrow> BigNumber CallState"
  useDepositedTokenIds :: "string option \<Rightarrow> DepositedTokenIds"
  tokenOfOwnerByIndex_calls :: "(string \<times> int) list \<Rightarrow> BigNumber CallState list"

section \<open>Pool keys and the incentives of a pool\<close>

datatype token_ref = Str string | Tok Token

definition token_address :: "token_ref \<Rightarrow> string" where
  "token_address t = (case t of Str s \<Rightarrow> s | Tok k \<Rightarrow> address k)"

text \<open>\<^verbatim>\<open>toPoolKey\<close>, applied to the fields \<^verbatim>\<open>token0\<close>, \<^verbatim>\<open>token1\<close> and \<^verbatim>\<open>fee\<close> of its argument.\<close>

definition toPoolKey :: "token_ref \<Rightarrow> token_ref \<Rightarrow> int \<Rightarrow> string" where
  "toPoolKey t0 t1 f =
     token_address t0 @ ''-'' @ token_address t1 @ ''-'' @ number_toString f"

definition incentive_key :: "'d Incentive \<Rightarrow> string" where
  "incentive_key incentive =
     toPoolKey (Tok (Pool.token0 (pool incentive))) (Tok (Pool.token1 (pool incentive)))
       (Pool.fee (pool incentive))"

text \<open>
  The object that the \<^verbatim>\<open>reduce\<close> builds is the map of its own keys: a pool key holds
  the separator \<^verbatim>\<open>-\<close>, so it is not the name of a property that an object inherits.
\<close>

definition incentivesByPoolKey ::
  "'d Incentive list option \<Rightarrow> (string \<rightharpoonup> 'd Incentive list)" where
  "incentivesByPoolKey incs =
     (case incs of
        None \<Rightarrow> Map.empty
      | Some l \<Rightarrow>
          foldl (\<lambda>memo incentive.
                   let key = incentive_key incentive
                   in memo(key \<mapsto> (case memo key of None \<Rightarrow> [] | Some g \<Rightarrow> g) @ [incentive]))
                Map.empty l)"

section \<open>useV3PositionsFromTokenIds\<close>

definition inputs_of :: "BigNumber list option \<Rightarrow> BigNumber list list" where
  "inputs_of ids = (case ids of Some l \<Rightarrow> map (\<lambda>tokenId. [tokenId]) l | None \<Rightarrow> [])"

definition loading_error ::
  "bool \<Rightarrow> PositionInfo CallState list \<Rightarrow> string CallState list \<Rightarrow> string CallState list
     \<Rightarrow> bool \<times> bool" where
  "loading_error incentivesLoading positionInfos tokenIdOwners depositOwners =
     (incentivesLoading \<or>
        (list_ex CallState.loading positionInfos \<or> list_ex CallState.loading tokenIdOwners \<or>
         list_ex CallState.loading depositOwners),
      list_ex CallState.error positionInfos \<or> list_ex CallState.error tokenIdOwners \<or>
        list_ex CallState.error depositOwners)"

text \<open>The body of the callback of \<^verbatim>\<open>tokenIds.map\<close>, given the three call states at its index.\<close>

definition position_of ::
  "(string \<rightharpoonup> 'd Incentive list) \<Rightarrow> BigNumber \<Rightarrow> string CallState \<Rightarrow> PositionInfo CallState
     \<Rightarrow> string CallState \<Rightarrow> 'd PositionDetails option" where
  "position_of byKey tid ownerCall infoCall depositCall =
     (let owner' = result ownerCall;
          positionInfo = result infoCall;
          depositOwner = result depositCall
      in if \<not> truthy owner' \<or> positionInfo = None then None
         else
           (case (owner', positionInfo) of
              (Some ownerAddr, Some info) \<Rightarrow>
                let depositedInStaker' = (truthy depositOwner \<and> depositOwner \<noteq> Some AddressZero)
                in Some \<lparr>nonce = nonce info,
                         operator = operator info,
                         token0 = token0 info,
                         token1 = token1 info,
                         fee = fee info,
                         tickLower = tickLower info,
                         tickUpper = tickUpper info,
                         liquidity = liquidity info,
                         feeGrowthInside0LastX128 = feeGrowthInside0LastX128 info,
                         feeGrowthInside1LastX128 = feeGrowthInside1LastX128 info,
                         tokensOwed0 = tokensOwed0 info,
                         tokensOwed1 = tokensOwed1 info,
                         tokenId = tid,
                         owner = (case depositOwner of
                                    Some d \<Rightarrow> if depositedInStaker' then d else ownerAddr
                                  | None \<Rightarrow> ownerAddr),
                         depositedInStaker = depositedInStaker',
                         incentives =
                           (case byKey (toPoolKey (Str (token0 info)) (Str (token1 info)) (fee info)) of
                              None \<Rightarrow> []
                            | Some g \<Rightarrow> g)\<rparr>
            | _ \<Rightarrow> None))"

text \<open>
  The callback at index \<open>i\<close>: reading \<^verbatim>\<open>.result\<close> of an element that a batch does not
  have is a \<^verbatim>\<open>TypeError\<close>.
\<close>

definition position_at ::
  "(string \<rightharpoonup> 'd Incentive list) \<Rightarrow> BigNumber list \<Rightarrow> string CallState list
     \<Rightarrow> PositionInfo CallState list \<Rightarrow> string CallState list \<Rightarrow> nat
     \<Rightarrow> js_error + 'd PositionDetails option" where
  "position_at byKey ids tokenIdOwners positionInfos depositOwners i =
     (if i < length tokenIdOwners \<and> i < length positionInfos \<and> i < length depositOwners
      then Inr (position_of byKey (ids ! i) (tokenIdOwners ! i) (positionInfos ! i)
                  (depositOwners ! i))
      else Inl TypeError)"

definition positions_memo ::
  "bool \<Rightarrow> bool \<Rightarrow> BigNumber list option \<Rightarrow> string CallState list
     \<Rightarrow> PositionInfo CallState list \<Rightarrow> string CallState list
     \<Rightarrow> (string \<rightharpoonup> 'd Incentive list) \<Rightarrow> js_error + 'd PositionDetails list option" where
  "positions_memo loading' error' ids tokenIdOwners positionInfos depositOwners byKey =
     (case ids of
        Some l \<Rightarrow>
          if \<not> loading' \<and> \<not> error' then
            (case collect (map (position_at byKey l tokenIdOwners positionInfos depositOwners)
                             [0..<length l]) of
               Inl e \<Rightarrow> Inl e
             | Inr ps \<Rightarrow> Inr (Some (List.map_filter (\<lambda>p. p) ps)))
          else Inr None
      | None \<Rightarrow> Inr None)"

definition useV3PositionsFromTokenIds ::
  "'d Hooks \<Rightarrow> BigNumber list option \<Rightarrow> js_error + 'd UseV3PositionsResults" where
  "useV3PositionsFromTokenIds env ids =
     (let inputs = inputs_of ids;
          positionInfos = positions_calls env inputs;
          tokenIdOwners = ownerOf_calls env inputs;
          depositOwners = deposits_calls env inputs;
          incentivesLoading = AllIncentives.loading (useAllIncentives env);
          (loading', error') =
             loading_error incentivesLoading positionInfos tokenIdOwners depositOwners;
          byKey = incentivesByPoolKey (AllIncentives.incentives (useAllIncentives env))
      in case positions_memo loading' error' ids tokenIdOwners positionInfos depositOwners byKey of
           Inl e \<Rightarrow> Inl e
         | Inr ps \<Rightarrow>
             Inr \<lparr>UseV3PositionsResults.loading = loading', error = error', positions = ps\<rparr>)"

section \<open>useV3Positions\<close>

text \<open>\<^verbatim>\<open>balanceResult?.[0]?.toNumber()\<close>\<close>

definition accountBalance :: "'d Hooks \<Rightarrow> string option \<Rightarrow> js_error + int option" where
  "accountBalance env account =
     (case result (balanceOf_call env account) of
        None \<Rightarrow> Inr None
      | Some b \<Rightarrow> (case toNumber b of Inl e \<Rightarrow> Inl e | Inr n \<Rightarrow> Inr (Some n)))"

definition tokenIdsArgs :: "string option \<Rightarrow> int option \<Rightarrow> (string \<times> int) list" where
  "tokenIdsArgs account balance =
     (case (balance, account) of
        (Some n, Some a) \<Rightarrow>
          if n \<noteq> 0 \<and> a \<noteq> [] then map (\<lambda>i. (a, int i)) [0..<nat n] else []
      | _ \<Rightarrow> [])"

text \<open>
  The memoised \<^verbatim>\<open>tokenIds\<close>: the results that are there, each made a BigNumber, and then
  the deposited identifiers, each made a BigNumber.
\<close>

definition tokenIds_memo ::
  "string option \<Rightarrow> BigNumber list option \<Rightarrow> BigNumber CallState list \<Rightarrow> BigNumber list" where
  "tokenIds_memo account depositedTokenIds tokenIdResults =
     (if truthy account then
        map (\<lambda>r. r) (List.map_filter (\<lambda>r. r) (map result tokenIdResults))
          @ (case depositedTokenIds of Some ids \<Rightarrow> map (\<lambda>id'. id') ids | None \<Rightarrow> [])
      else [])"

text \<open>The token identifiers \<^verbatim>\<open>useV3Positions\<close> resolves for an account.\<close>

definition resolved_tokenIds :: "'d Hooks \<Rightarrow> string option \<Rightarrow> js_error + BigNumber list" where
  "resolved_tokenIds env account =
     (case accountBalance env account of
        Inl e \<Rightarrow> Inl e
      | Inr balance \<Rightarrow>
          Inr (tokenIds_memo account (tokenIds (useDepositedTokenIds env account))
                 (tokenOfOwnerByIndex_calls env (tokenIdsArgs account balance))))"

definition useV3Positions ::
  "'d Hooks \<Rightarrow> string option \<Rightarrow> js_error + 'd UseV3PositionsResults" where
  "useV3Positions env account =
     (let balanceLoading = CallState.loading (balanceOf_call env account)
      in case accountBalance env account of
           Inl e \<Rightarrow> Inl e
         | Inr balance \<Rightarrow>
             let args = tokenIdsArgs account balance;
                 deposited = useDepositedTokenIds env account;
                 tokenIdResults = tokenOfOwnerByIndex_calls env args;
                 someTokenIdsLoading =
                   (state deposited = LOADING \<or> list_ex CallState.loading tokenIdResults);
                 ids = tokenIds_memo account (tokenIds deposited) tokenIdResults
             in (case useV3PositionsFromTokenIds env (Some ids) of
                   Inl e \<Rightarrow> Inl e
                 | Inr r \<Rightarrow>
                     Inr \<lparr>UseV3PositionsResults.loading =
                            (someTokenIdsLoading \<or> balanceLoading \<or> UseV3PositionsResults.loading r),
                          error = UseV3PositionsResults.error r,
                          positions = positions r\<rparr>))"

section \<open>useV3PositionsForPool\<close>

definition relevant :: "Pool \<Rightarrow> 'd PositionDetails \<Rightarrow> bool" where
  "relevant pl p =
     (token0 p = address (Pool.token0 pl) \<and> token1 p = address (Pool.token1 pl) \<and>
      fee p = Pool.fee pl)"

definition below :: "Pool \<Rightarrow> 'd PositionDetails \<Rightarrow> bool option" where
  "below pl p = (case tickLower p of Some l \<Rightarrow> Some (tickCurrent pl < l) | None \<Rightarrow> None)"

definition above :: "Pool \<Rightarrow> 'd PositionDetails \<Rightarrow> bool option" where
  "above pl p = (case tickUpper p of Some u \<Rightarrow> Some (tickCurrent pl \<ge> u) | None \<Rightarrow> None)"

definition within_range :: "Pool \<Rightarrow> 'd PositionDetails \<Rightarrow> bool" where
  "within_range pl p =
     (case (below pl p, above pl p) of (Some b, Some a) \<Rightarrow> \<not> b \<and> \<not> a | _ \<Rightarrow> False)"

text \<open>
  The body of \<^verbatim>\<open>useV3PositionsForPool\<close> after its call of \<^verbatim>\<open>useV3Positions\<close>, as a
  function of what that call returned.
\<close>

definition positionsForPool ::
  "'d UseV3PositionsResults \<Rightarrow> Pool option \<Rightarrow> 'd PositionsForPoolResults" where
  "positionsForPool r pool' =
     (case (positions r, pool') of
        (Some ps, Some pl) \<Rightarrow>
          if \<not> UseV3PositionsResults.loading r then
            \<lparr>PositionsForPoolResults.loading = False, inRangePositions = None,
             outOfRangePositions = None\<rparr>
          else
            let relevantPositions = filter (relevant pl) ps
            in \<lparr>PositionsForPoolResults.loading = False,
                inRangePositions = Some (filter (within_range pl) relevantPositions),
                outOfRangePositions =
                  Some (filter (\<lambda>p. \<not> within_range pl p) relevantPositions)\<rparr>
      | _ \<Rightarrow>
          \<lparr>PositionsForPoolResults.loading = False, inRangePositions = None,
           outOfRangePositions = None\<rparr>)"

definition useV3PositionsForPool ::
  "'d Hooks \<Rightarrow> string option \<Rightarrow> Pool option \<Rightarrow> js_error + 'd PositionsForPoolResults" where
  "useV3PositionsForPool env account pool' =
     (case useV3Positions env account of
        Inl e \<Rightarrow> Inl e
      | Inr r \<Rightarrow> Inr (positionsForPool r pool'))"

section \<open>Notions used in the statements\<close>

text \<open>
  The indices whose position is kept by the filter after \<^verbatim>\<open>tokenIds.map\<close>: the owner
  read at the index is truthy and the position details are there.
\<close>

definition kept :: "string CallState list \<Rightarrow> PositionInfo CallState list \<Rightarrow> nat \<Rightarrow> bool" where
  "kept tokenIdOwners positionInfos i =
     (truthy (result (tokenIdOwners ! i)) \<and> result (positionInfos ! i) \<noteq> None)"

text \<open>
  Addresses are hexadecimal strings, in which the separator of the pool keys does not
  occur.
\<close>

definition dash_free :: "string \<Rightarrow> bool" where
  "dash_free s = (CHR ''-'' \<notin> set s)"

text \<open>The number that a string of decimal digits denotes.\<close>

definition dec_value :: "string \<Rightarrow> nat" where
  "dec_value s = foldl (\<lambda>a c. 10 * a + (of_char c - 48)) 0 s"

section \<open>Example environments\<close>

text \<open>
  An account \<^verbatim>\<open>0xU\<close> for which the positions 1 and 4 are enumerated by index and
  the positions 2, 5 and 4 are reported as deposited in the staker; nothing is known of
  the position 3, and the owner call of the position 7 fails. In \<open>ex_pending\<close> the
  balance of the account is still being fetched.
\<close>

definition ex_info :: "string \<Rightarrow> string \<Rightarrow> int \<Rightarrow> int option \<Rightarrow> int option \<Rightarrow> PositionInfo" where
  "ex_info t0 t1 f lo hi =
     \<lparr>nonce = 0, operator = AddressZero, token0 = t0, token1 = t1, fee = f,
      tickLower = lo, tickUpper = hi, liquidity = 1000,
      feeGrowthInside0LastX128 = 0, feeGrowthInside1LastX128 = 0,
      tokensOwed0 = 0, tokensOwed1 = 0\<rparr>"

text \<open>The position with the fields of \<open>info\<close> and the four further fields given.\<close>

definition ex_position ::
  "PositionInfo \<Rightarrow> BigNumber \<Rightarrow> string \<Rightarrow> bool \<Rightarrow> 'd Incentive list \<Rightarrow> 'd PositionDetails" where
  "ex_position info tid ow dep incs =
     PositionInfo.extend info
       (PositionDetails.fields tid ow dep incs)"

definition ex_pool :: "string \<Rightarrow> string \<Rightarrow> int \<Rightarrow> int \<Rightarrow> Pool" where
  "ex_pool a b f t =
     \<lparr>Pool.token0 = \<lparr>address = a\<rparr>, token1 = \<lparr>address = b\<rparr>, fee = f, tickCurrent = t\<rparr>"

definition ex_call :: "'r option \<Rightarrow> 'r CallState" where
  "ex_call r = \<lparr>result = r, CallState.loading = False, error = False\<rparr>"

definition ex_incentives :: "nat Incentive list" where
  "ex_incentives =
     [\<lparr>pool = ex_pool ''0xA'' ''0xB'' 500 150, payload = 0\<rparr>,
      \<lparr>pool = ex_pool ''0xA'' ''0xC'' 3000 5, payload = 1\<rparr>,
      \<lparr>pool = ex_pool ''0xA'' ''0xB'' 500 150, payload = 2\<rparr>]"

definition ex_hooks :: "nat Hooks" where
  "ex_hooks =
     \<lparr>positions_calls =
        map (\<lambda>input. ex_call
               (if input = [1] \<or> input = [5]
                then Some (ex_info ''0xA'' ''0xB'' 500 (Some 100) (Some 200))
                else if input = [2] then Some (ex_info ''0xA'' ''0xB'' 500 None (Some 200))
                else if input = [4] then Some (ex_info ''0xA'' ''0xC'' 3000 (Some 0) (Some 10))
                else None)),
      ownerOf_calls =
        map (\<lambda>input.
               if input = [7] then \<lparr>result = None, CallState.loading = False, error = True\<rparr>
               else ex_call
                      (if input = [1] \<or> input = [4] then Some ''0xU''
                       else if input = [2] \<or> input = [5] then Some ''0xS''
                       else None)),
      deposits_calls =
        map (\<lambda>input. ex_call
               (if input = [2] \<or> input = [5] then Some ''0xU''
                else if input = [1] then Some AddressZero
                else None)),
      useAllIncentives = \<lparr>incentives = Some ex_incentives, loading = False\<rparr>,
      balanceOf_call = (\<lambda>account. ex_call (if account = Some ''0xU'' then Some 2 else None)),
      useDepositedTokenIds =
        (\<lambda>account. \<lparr>state = LOADED,
                      tokenIds = (if account = Some ''0xU'' then Some [2, 5, 4] else None)\<rparr>),
      tokenOfOwnerByIndex_calls =
        map (\<lambda>(a, i). ex_call
               (if a = ''0xU'' \<and> i = 0 then Some 1
                else if a = ''0xU'' \<and> i = 1 then Some 4
                else None))\<rparr>"

definition ex_pending :: "nat Hooks" where
  "ex_pending =
     ex_hooks\<lparr>balanceOf_call :=
                 (\<lambda>account. \<lparr>result = None, CallState.loading = True, error = False\<rparr>)\<rparr>"

text \<open>The positions that the hook makes of the identifiers 1, 3 and 2 in \<open>ex_hooks\<close>.\<close>

definition ex_positions :: "nat PositionDetails list" where
  "ex_positions =
     [ex_position (ex_info ''0xA'' ''0xB'' 500 (Some 100) (Some 200)) 1 ''0xU'' False
        [ex_incentives ! 0, ex_incentives ! 2],
      ex_position (ex_info ''0xA'' ''0xB'' 500 None (Some 200)) 2 ''0xU'' True
        [ex_incentives ! 0, ex_incentives ! 2]]"

text \<open>
  The positions of the account \<^verbatim>\<open>0xU\<close> in \<open>ex_pending\<close>: those of the deposited
  identifiers 2, 5 and 4.
\<close>

definition ex_pending_positions :: "nat PositionDetails list" where
  "ex_pending_positions =
     [ex_position (ex_info ''0xA'' ''0xB'' 500 None (Some 200)) 2 ''0xU'' True
        [ex_incentives ! 0, ex_incentives ! 2],
      ex_position (ex_info ''0xA'' ''0xB'' 500 (Some 100) (Some 200)) 5 ''0xU'' True
        [ex_incentives ! 0, ex_incentives ! 2],
      ex_position (ex_info ''0xA'' ''0xC'' 3000 (Some 0) (Some 10)) 4 ''0xU'' False
        [ex_incentives ! 1]]"

section \<open>Auxiliary facts\<close>

lemma collect_map_Inr: "collect (map (\<lambda>x. Inr (g x)) xs) = Inr (map g xs)"
  by (induction xs) simp_all

lemma collect_Inr_D: "collect xs = Inr vs \<Longrightarrow> xs = map Inr vs"
  by (induction xs arbitrary: vs) (auto split: sum.splits)

lemma map_filter_id_map: "List.map_filter (\<lambda>p. p) (map f xs) = List.map_filter f xs"
  by (induction xs) (simp_all add: List.map_filter_simps split: option.splits)

lemma in_set_map_filter:
  "p \<in> set (List.map_filter f xs) \<longleftrightarrow> (\<exists>x\<in>set xs. f x = Some p)"
  by (induction xs) (auto simp: List.map_filter_simps split: option.splits)

lemma list_all2_map_filter:
  "list_all2 (\<lambda>p i. f i = Some p) (List.map_filter f xs) (filter (\<lambda>i. f i \<noteq> None) xs)"
  by (induction xs) (auto simp: List.map_filter_simps split: option.splits)

lemma position_of_None_iff:
  "position_of byKey tid oc ic dc = None \<longleftrightarrow> \<not> (truthy (result oc) \<and> result ic \<noteq> None)"
  by (auto simp: position_of_def truthy_def Let_def split: option.splits)

lemma position_of_tokenId: "position_of byKey tid oc ic dc = Some p \<Longrightarrow> tokenId p = tid"
  by (auto simp: position_of_def Let_def split: option.splits if_splits)

lemma position_at_Inr_iff:
  "position_at byKey ids os is ds i = Inr v \<longleftrightarrow>
     i < length os \<and> i < length is \<and> i < length ds \<and>
     v = position_of byKey (ids ! i) (os ! i) (is ! i) (ds ! i)"
  by (auto simp: position_at_def)

lemma positions_memo_Some_iff:
  "positions_memo l e (Some ids) os is ds byKey = Inr (Some ps) \<longleftrightarrow>
     \<not> l \<and> \<not> e \<and> length ids \<le> length os \<and> length ids \<le> length is \<and> length ids \<le> length ds \<and>
     ps = List.map_filter (\<lambda>i. position_of byKey (ids ! i) (os ! i) (is ! i) (ds ! i)) [0..<length ids]"
  (is "?L \<longleftrightarrow> ?R")
proof
  assume ?L
  then have fl: "\<not> l" "\<not> e"
    by (auto simp: positions_memo_def split: if_splits)
  with \<open>?L\<close> obtain vs where c: "collect (map (position_at byKey ids os is ds) [0..<length ids]) = Inr vs"
    and ps: "ps = List.map_filter (\<lambda>p. p) vs"
    by (auto simp: positions_memo_def split: sum.splits)
  from collect_Inr_D[OF c] have m: "map (position_at byKey ids os is ds) [0..<length ids] = map Inr vs" .
  have len: "length vs = length ids"
    using arg_cong[OF m, of length] by simp
  have each: "position_at byKey ids os is ds i = Inr (vs ! i)" if "i < length ids" for i
    using arg_cong[OF m, of "\<lambda>xs. xs ! i"] that len by simp
  have lens: "length ids \<le> length os \<and> length ids \<le> length is \<and> length ids \<le> length ds"
  proof (cases "length ids")
    case 0 then show ?thesis by simp
  next
    case (Suc k)
    then have "k < length ids" by simp
    from each[OF this] show ?thesis unfolding position_at_Inr_iff using Suc by simp
  qed
  have "vs = map (\<lambda>i. position_of byKey (ids ! i) (os ! i) (is ! i) (ds ! i)) [0..<length ids]"
  proof (rule nth_equalityI)
    show "length vs = length (map (\<lambda>i. position_of byKey (ids ! i) (os ! i) (is ! i) (ds ! i)) [0..<length ids])"
      using len by simp
  next
    fix i assume "i < length vs"
    then have i: "i < length ids" using len by simp
    from each[OF i] have "vs ! i = position_of byKey (ids ! i) (os ! i) (is ! i) (ds ! i)"
      unfolding position_at_Inr_iff by simp
    then show "vs ! i = map (\<lambda>i. position_of byKey (ids ! i) (os ! i) (is ! i) (ds ! i)) [0..<length ids] ! i"
      using i by simp
  qed
  with ps fl lens show ?R by (simp add: map_filter_id_map)
next
  assume r: ?R
  then have "map (position_at byKey ids os is ds) [0..<length ids]
     = map (\<lambda>i. Inr (position_of byKey (ids ! i) (os ! i) (is ! i) (ds ! i))) [0..<length ids]"
    by (auto simp: position_at_def)
  then have "collect (map (position_at byKey ids os is ds) [0..<length ids])
     = Inr (map (\<lambda>i. position_of byKey (ids ! i) (os ! i) (is ! i) (ds ! i)) [0..<length ids])"
    by (simp only: collect_map_Inr)
  with r show ?L
    by (simp add: positions_memo_def map_filter_id_map)
qed

lemma hook_Inr_iff:
  "useV3PositionsFromTokenIds env ids = Inr r \<longleftrightarrow>
     (\<exists>ps. positions_memo
             (fst (loading_error (AllIncentives.loading (useAllIncentives env))
                     (positions_calls env (inputs_of ids)) (ownerOf_calls env (inputs_of ids))
                     (deposits_calls env (inputs_of ids))))
             (snd (loading_error (AllIncentives.loading (useAllIncentives env))
                     (positions_calls env (inputs_of ids)) (ownerOf_calls env (inputs_of ids))
                     (deposits_calls env (inputs_of ids))))
             ids (ownerOf_calls env (inputs_of ids)) (positions_calls env (inputs_of ids))
             (deposits_calls env (inputs_of ids))
             (incentivesByPoolKey (AllIncentives.incentives (useAllIncentives env))) = Inr ps \<and>
           r = \<lparr>UseV3PositionsResults.loading =
                  fst (loading_error (AllIncentives.loading (useAllIncentives env))
                     (positions_calls env (inputs_of ids)) (ownerOf_calls env (inputs_of ids))
                     (deposits_calls env (inputs_of ids))),
                error =
                  snd (loading_error (AllIncentives.loading (useAllIncentives env))
                     (positions_calls env (inputs_of ids)) (ownerOf_calls env (inputs_of ids))
                     (deposits_calls env (inputs_of ids))),
                positions = ps\<rparr>)"
  by (auto simp: useV3PositionsFromTokenIds_def Let_def split_beta split: sum.splits)

lemma produced_iff:
  "(useV3PositionsFromTokenIds env (Some ids) = Inr r \<and> positions r = Some ps) \<longleftrightarrow>
     (loading_error (AllIncentives.loading (useAllIncentives env))
        (positions_calls env (inputs_of (Some ids))) (ownerOf_calls env (inputs_of (Some ids)))
        (deposits_calls env (inputs_of (Some ids))) = (False, False) \<and>
      length ids \<le> length (ownerOf_calls env (inputs_of (Some ids))) \<and>
      length ids \<le> length (positions_calls env (inputs_of (Some ids))) \<and>
      length ids \<le> length (deposits_calls env (inputs_of (Some ids))) \<and>
      ps = List.map_filter
             (\<lambda>i. position_of (incentivesByPoolKey (AllIncentives.incentives (useAllIncentives env)))
                    (ids ! i) (ownerOf_calls env (inputs_of (Some ids)) ! i)
                    (positions_calls env (inputs_of (Some ids)) ! i)
                    (deposits_calls env (inputs_of (Some ids)) ! i))
             [0..<length ids] \<and>
      r = \<lparr>UseV3PositionsResults.loading = False, error = False, positions = Some ps\<rparr>)"
  unfolding hook_Inr_iff
  by (cases "loading_error (AllIncentives.loading (useAllIncentives env))
        (positions_calls env (inputs_of (Some ids))) (ownerOf_calls env (inputs_of (Some ids)))
        (deposits_calls env (inputs_of (Some ids)))")
     (auto simp: positions_memo_Some_iff)

lemma produced_list_all2:
  assumes "useV3PositionsFromTokenIds env (Some ids) = Inr r" and "positions r = Some ps"
  shows "list_all2
           (\<lambda>p i. position_of (incentivesByPoolKey (AllIncentives.incentives (useAllIncentives env)))
                    (ids ! i) (ownerOf_calls env (inputs_of (Some ids)) ! i)
                    (positions_calls env (inputs_of (Some ids)) ! i)
                    (deposits_calls env (inputs_of (Some ids)) ! i) = Some p)
           ps
           (filter (kept (ownerOf_calls env (inputs_of (Some ids)))
                      (positions_calls env (inputs_of (Some ids)))) [0..<length ids])"
proof -
  let ?f = "\<lambda>i. position_of (incentivesByPoolKey (AllIncentives.incentives (useAllIncentives env)))
                    (ids ! i) (ownerOf_calls env (inputs_of (Some ids)) ! i)
                    (positions_calls env (inputs_of (Some ids)) ! i)
                    (deposits_calls env (inputs_of (Some ids)) ! i)"
  from assms have ps: "ps = List.map_filter ?f [0..<length ids]"
    using produced_iff[of env ids r ps] by blast
  have k: "(\<lambda>i. ?f i \<noteq> None) = kept (ownerOf_calls env (inputs_of (Some ids)))
                      (positions_calls env (inputs_of (Some ids)))"
    by (rule ext) (simp add: position_of_None_iff kept_def)
  show ?thesis
    using list_all2_map_filter[of ?f "[0..<length ids]"] unfolding ps k .
qed

lemma position_of_owner:
  assumes "position_of byKey tid oc ic dc = Some p"
  shows "if truthy (result dc) \<and> result dc \<noteq> Some AddressZero
         then Some (owner p) = result dc \<and> depositedInStaker p
         else Some (owner p) = result oc \<and> \<not> depositedInStaker p"
  using assms
  by (auto simp: position_of_def Let_def truthy_def split: option.splits if_splits)

lemma nths_filter_upt: "map ((!) xs) (filter P [0..<length xs]) = nths xs {i. P i}"
proof -
  have z: "zip xs [0..<length xs] = map (\<lambda>i. (xs ! i, i)) [0..<length xs]"
    by (rule nth_equalityI) simp_all
  show ?thesis
    unfolding nths_def z by (simp add: filter_map comp_def)
qed

lemma subseq_filter_upt: "subseq (map ((!) xs) (filter P [0..<length xs])) xs"
  unfolding nths_filter_upt subseq_conv_nths by blast

lemma list_all2_map_eq: "list_all2 (\<lambda>p i. f p = g i) ps js \<Longrightarrow> map f ps = map g js"
  by (induction rule: list_all2_induct) simp_all

lemma ex_run:
  "useV3PositionsFromTokenIds ex_hooks (Some [1, 3, 2])
     = Inr \<lparr>UseV3PositionsResults.loading = False, error = False, positions = Some ex_positions\<rparr>"
  by code_simp

lemma ex_run_positions:
  "positions \<lparr>UseV3PositionsResults.loading = False, error = False,
              positions = Some ex_positions\<rparr> = Some ex_positions"
  by simp

subsection \<open>Pool keys\<close>

lemma dec_value_snoc: "dec_value (s @ [c]) = 10 * dec_value s + (of_char c - 48)"
  by (simp add: dec_value_def)

lemma dec_value_digits: "dec_value (digits n) = n"
proof (induction n rule: digits.induct)
  case (1 n)
  show ?case
  proof (cases "n < 10")
    case True
    then show ?thesis
      by (subst digits.simps) (simp add: dec_value_def)
  next
    case False
    with 1 have "dec_value (digits (n div 10)) = n div 10" by simp
    with False show ?thesis
      by (subst digits.simps) (simp add: dec_value_snoc)
  qed
qed

lemma digits_inj: "digits n = digits m \<Longrightarrow> n = m"
  by (metis dec_value_digits)

lemma digit_not_dash: "d < 10 \<Longrightarrow> char_of (48 + d :: nat) \<noteq> CHR ''-''"
proof
  assume d: "d < 10" and "char_of (48 + d) = CHR ''-''"
  then have "of_char (char_of (48 + d)) = (of_char CHR ''-'' :: nat)" by simp
  with d show False by simp
qed

lemma digits_no_dash: "CHR ''-'' \<notin> set (digits n)"
proof (induction n rule: digits.induct)
  case (1 n)
  show ?case
  proof (cases "n < 10")
    case True
    then show ?thesis
      by (subst digits.simps) (use digit_not_dash[of n] in auto)
  next
    case False
    with 1 have "CHR ''-'' \<notin> set (digits (n div 10))" by simp
    moreover have "char_of (48 + n mod 10) \<noteq> CHR ''-''"
      by (rule digit_not_dash) simp
    ultimately show ?thesis using False
      by (subst digits.simps) auto
  qed
qed

lemma number_toString_inj: "number_toString i = number_toString j \<Longrightarrow> i = j"
proof -
  assume e: "number_toString i = number_toString j"
  have neg: False if "a < 0" "\<not> b < 0" "number_toString a = number_toString b" for a b :: int
  proof -
    from that have "CHR ''-'' # digits (nat (- a)) = digits (nat b)"
      by (simp add: number_toString_def)
    then have "CHR ''-'' \<in> set (digits (nat b))"
      by (metis list.set_intros(1))
    then show False by (simp add: digits_no_dash)
  qed
  show ?thesis
  proof (cases "i < 0"; cases "j < 0")
    assume "i < 0" "j < 0"
    with e have "digits (nat (- i)) = digits (nat (- j))" by (simp add: number_toString_def)
    then have "nat (- i) = nat (- j)" by (rule digits_inj)
    with \<open>i < 0\<close> \<open>j < 0\<close> show ?thesis by simp
  next
    assume "i < 0" "\<not> j < 0"
    with e neg show ?thesis by blast
  next
    assume "\<not> i < 0" "j < 0"
    with e neg[of j i] show ?thesis by simp
  next
    assume "\<not> i < 0" "\<not> j < 0"
    with e have "digits (nat i) = digits (nat j)" by (simp add: number_toString_def)
    then have "nat i = nat j" by (rule digits_inj)
    with \<open>\<not> i < 0\<close> \<open>\<not> j < 0\<close> show ?thesis by simp
  qed
qed

lemma split_at_char:
  "c \<notin> set xs \<Longrightarrow> c \<notin> set xs' \<Longrightarrow> xs @ c # ys = xs' @ c # ys' \<Longrightarrow> xs = xs' \<and> ys = ys'"
proof (induction xs arbitrary: xs')
  case Nil
  then show ?case by (cases xs') auto
next
  case (Cons x xs)
  then show ?case by (cases xs') auto
qed

lemma toPoolKey_inj:
  assumes "dash_free (token_address a)" "dash_free (token_address b)"
    and "dash_free (token_address a')" "dash_free (token_address b')"
  shows "toPoolKey a b f = toPoolKey a' b' f' \<longleftrightarrow>
           token_address a = token_address a' \<and> token_address b = token_address b' \<and> f = f'"
proof
  assume "toPoolKey a b f = toPoolKey a' b' f'"
  then have e: "token_address a @ CHR ''-'' # (token_address b @ CHR ''-'' # number_toString f)
             = token_address a' @ CHR ''-'' # (token_address b' @ CHR ''-'' # number_toString f')"
    by (simp add: toPoolKey_def)
  from split_at_char[OF _ _ e] assms have 1: "token_address a = token_address a'"
    and e2: "token_address b @ CHR ''-'' # number_toString f
               = token_address b' @ CHR ''-'' # number_toString f'"
    by (simp_all add: dash_free_def)
  from split_at_char[OF _ _ e2] assms have 2: "token_address b = token_address b'"
    and "number_toString f = number_toString f'"
    by (simp_all add: dash_free_def)
  with 1 number_toString_inj show "token_address a = token_address a' \<and> token_address b = token_address b' \<and> f = f'"
    by blast
next
  assume "token_address a = token_address a' \<and> token_address b = token_address b' \<and> f = f'"
  then show "toPoolKey a b f = toPoolKey a' b' f'" by (simp add: toPoolKey_def)
qed

lemma group_lookup:
  "foldl (\<lambda>memo incentive.
            let key = incentive_key incentive
            in memo(key \<mapsto> (case memo key of None \<Rightarrow> [] | Some g \<Rightarrow> g) @ [incentive])) m l k
   = (if filter (\<lambda>inc. incentive_key inc = k) l = [] then m k
      else Some ((case m k of None \<Rightarrow> [] | Some g \<Rightarrow> g) @ filter (\<lambda>inc. incentive_key inc = k) l))"
proof (induction l arbitrary: m)
  case Nil
  show ?case by simp
next
  case (Cons x xs)
  show ?case
    unfolding foldl_Cons Cons.IH by (simp add: Let_def)
qed

lemma incentivesByPoolKey_lookup:
  "(case incentivesByPoolKey incs k of None \<Rightarrow> [] | Some g \<Rightarrow> g)
     = filter (\<lambda>inc. incentive_key inc = k) (case incs of None \<Rightarrow> [] | Some l \<Rightarrow> l)"
  by (cases incs) (simp_all add: incentivesByPoolKey_def group_lookup)

lemma position_of_incentives:
  assumes "position_of byKey tid oc ic dc = Some p"
  shows "PositionDetails.incentives p
           = (case byKey (toPoolKey (Str (token0 p)) (Str (token1 p)) (fee p)) of
                None \<Rightarrow> [] | Some g \<Rightarrow> g)"
  using assms
  by (auto simp: position_of_def Let_def split: option.splits if_splits)

lemma produced_member:
  assumes "useV3PositionsFromTokenIds env (Some ids) = Inr r" and "positions r = Some ps"
    and "p \<in> set ps"
  shows "\<exists>i<length ids.
           position_of (incentivesByPoolKey (AllIncentives.incentives (useAllIncentives env)))
             (ids ! i) (ownerOf_calls env (inputs_of (Some ids)) ! i)
             (positions_calls env (inputs_of (Some ids)) ! i)
             (deposits_calls env (inputs_of (Some ids)) ! i) = Some p"
proof -
  let ?f = "\<lambda>i. position_of (incentivesByPoolKey (AllIncentives.incentives (useAllIncentives env)))
             (ids ! i) (ownerOf_calls env (inputs_of (Some ids)) ! i)
             (positions_calls env (inputs_of (Some ids)) ! i)
             (deposits_calls env (inputs_of (Some ids)) ! i)"
  from assms(1,2) have "ps = List.map_filter ?f [0..<length ids]"
    using produced_iff[of env ids r ps] by blast
  with assms(3) have "\<exists>i\<in>set [0..<length ids]. ?f i = Some p"
    by (simp only: in_set_map_filter)
  then obtain i where "i \<in> set [0..<length ids]" and f: "?f i = Some p" ..
  then have "i < length ids" by simp
  with f show ?thesis by blast
qed

subsection \<open>The hook of an account\<close>

lemma accountBalance_fits:
  assumes "\<forall>b. result (balanceOf_call env account) = Some b \<longrightarrow> \<bar>b\<bar> < 2 ^ 53"
  shows "accountBalance env account = Inr (result (balanceOf_call env account))"
  using assms by (auto simp: accountBalance_def toNumber_def split: option.splits)

lemma useV3Positions_Inr_iff:
  assumes "accountBalance env account = Inr balance"
  shows "useV3Positions env account = Inr r \<longleftrightarrow>
           (\<exists>inner. useV3PositionsFromTokenIds env
                       (Some (tokenIds_memo account (tokenIds (useDepositedTokenIds env account))
                                (tokenOfOwnerByIndex_calls env (tokenIdsArgs account balance))))
                     = Inr inner \<and>
                    r = \<lparr>UseV3PositionsResults.loading =
                           ((state (useDepositedTokenIds env account) = LOADING \<or>
                             list_ex CallState.loading
                               (tokenOfOwnerByIndex_calls env (tokenIdsArgs account balance))) \<or>
                            CallState.loading (balanceOf_call env account) \<or>
                            UseV3PositionsResults.loading inner),
                         error = UseV3PositionsResults.error inner,
                         positions = positions inner\<rparr>)"
  using assms by (auto simp: useV3Positions_def Let_def split: sum.splits)

lemma hook_empty:
  "useV3PositionsFromTokenIds env (Some [])
     = Inr \<lparr>UseV3PositionsResults.loading =
               fst (loading_error (AllIncentives.loading (useAllIncentives env))
                      (positions_calls env []) (ownerOf_calls env []) (deposits_calls env [])),
             error =
               snd (loading_error (AllIncentives.loading (useAllIncentives env))
                      (positions_calls env []) (ownerOf_calls env []) (deposits_calls env [])),
             positions =
               (if loading_error (AllIncentives.loading (useAllIncentives env))
                      (positions_calls env []) (ownerOf_calls env []) (deposits_calls env [])
                   = (False, False)
                then Some [] else None)\<rparr>"
  by (cases "loading_error (AllIncentives.loading (useAllIncentives env))
                      (positions_calls env []) (ownerOf_calls env []) (deposits_calls env [])")
     (auto simp: useV3PositionsFromTokenIds_def inputs_of_def positions_memo_def
        List.map_filter_simps)

lemma tokenIds_memo_falsy: "\<not> truthy account \<Longrightarrow> tokenIds_memo account d rs = []"
  by (simp add: tokenIds_memo_def)

lemma tokenIds_memo_truthy:
  "truthy account \<Longrightarrow>
   tokenIds_memo account d rs
     = List.map_filter result rs @ (case d of None \<Rightarrow> [] | Some l \<Rightarrow> l)"
  by (cases d) (simp_all add: tokenIds_memo_def map_filter_id_map)

lemma hook_ignores_tokenOfOwnerByIndex:
  "useV3PositionsFromTokenIds (env\<lparr>tokenOfOwnerByIndex_calls := f\<rparr>) ids
     = useV3PositionsFromTokenIds env ids"
  by (simp add: useV3PositionsFromTokenIds_def)

lemma useV3Positions_unfold:
  assumes "accountBalance env account = Inr balance"
  shows "useV3Positions env account =
           (case useV3PositionsFromTokenIds env
                   (Some (tokenIds_memo account (tokenIds (useDepositedTokenIds env account))
                            (tokenOfOwnerByIndex_calls env (tokenIdsArgs account balance)))) of
              Inl e \<Rightarrow> Inl e
            | Inr r \<Rightarrow>
                Inr \<lparr>UseV3PositionsResults.loading =
                       ((state (useDepositedTokenIds env account) = LOADING \<or>
                         list_ex CallState.loading
                           (tokenOfOwnerByIndex_calls env (tokenIdsArgs account balance))) \<or>
                        CallState.loading (balanceOf_call env account) \<or>
                        UseV3PositionsResults.loading r),
                     error = UseV3PositionsResults.error r,
                     positions = positions r\<rparr>)"
  using assms by (simp add: useV3Positions_def Let_def)


subsection \<open>The positions of a pool\<close>

lemma within_range_iff:
  "within_range pl p =
     (case (tickLower p, tickUpper p) of
        (Some lo, Some hi) \<Rightarrow> lo \<le> tickCurrent pl \<and> tickCurrent pl < hi
      | _ \<Rightarrow> False)"
  by (auto simp: within_range_def below_def above_def split: option.splits)

lemma positionsForPool_classified:
  assumes "positions r = Some ps" and "UseV3PositionsResults.loading r"
  shows "positionsForPool r (Some pl)
           = \<lparr>PositionsForPoolResults.loading = False,
              inRangePositions = Some (filter (within_range pl) (filter (relevant pl) ps)),
              outOfRangePositions =
                Some (filter (\<lambda>p. \<not> within_range pl p) (filter (relevant pl) ps))\<rparr>"
  using assms by (simp add: positionsForPool_def Let_def)

lemma positionsForPool_guarded:
  assumes "\<not> UseV3PositionsResults.loading r \<or> positions r = None \<or> pool' = None"
  shows "positionsForPool r pool'
           = \<lparr>PositionsForPoolResults.loading = False, inRangePositions = None,
              outOfRangePositions = None\<rparr>"
  using assms by (auto simp: positionsForPool_def split: option.splits)

lemma ex_loaded_run:
  "useV3Positions ex_hooks None
     = Inr \<lparr>UseV3PositionsResults.loading = False, error = False, positions = Some []\<rparr>"
  by code_simp

lemma ex_pending_run:
  "useV3Positions ex_pending (Some ''0xU'')
     = Inr \<lparr>UseV3PositionsResults.loading = True, error = False,
            positions = Some ex_pending_positions\<rparr>"
  by code_simp

lemma ex_pending_pool:
  "positionsForPool
     \<lparr>UseV3PositionsResults.loading = True, error = False,
      positions = Some ex_pending_positions\<rparr>
     (Some (ex_pool ''0xA'' ''0xB'' 500 150))
   = \<lparr>PositionsForPoolResults.loading = False,
      inRangePositions = Some [ex_pending_positions ! 1],
      outOfRangePositions = Some [ex_pending_positions ! 0]\<rparr>"
  by code_simp

lemma ex_pending_nonnumeric:
  "ex_pending_positions ! 0 \<in> set ex_pending_positions \<and>
   relevant (ex_pool ''0xA'' ''0xB'' 500 150) (ex_pending_positions ! 0) \<and>
   tickLower (ex_pending_positions ! 0) = None"
  by code_simp

section \<open>Properties of useV3PositionsFromTokenIds\<close>

text \<open>
  C1. When every batch has a call state for each token identifier and no call is loading
  or failed, the hook returns a list of positions, and an identifier whose owner result
  or position-details result is missing, at each index where it occurs in the input, is
  the identifier of no position of that list: it is dropped without any error.
\<close>

theorem missing_results_are_dropped:
  fixes env :: "'d Hooks" and ids :: "BigNumber list"
  defines "owners \<equiv> ownerOf_calls env (inputs_of (Some ids))"
  defines "infos \<equiv> positions_calls env (inputs_of (Some ids))"
  defines "deps \<equiv> deposits_calls env (inputs_of (Some ids))"
  assumes lens: "length ids \<le> length owners \<and> length ids \<le> length infos \<and> length ids \<le> length deps"
    and flags: "loading_error (AllIncentives.loading (useAllIncentives env)) infos owners deps
                  = (False, False)"
    and missing: "\<forall>i<length ids. ids ! i = t \<longrightarrow>
                    result (owners ! i) = None \<or> result (infos ! i) = None"
  shows "\<exists>ps. useV3PositionsFromTokenIds env (Some ids)
                 = Inr \<lparr>UseV3PositionsResults.loading = False, error = False,
                        positions = Some ps\<rparr> \<and>
              t \<notin> tokenId ` set ps"
proof -
  let ?f = "\<lambda>i. position_of (incentivesByPoolKey (AllIncentives.incentives (useAllIncentives env)))
                    (ids ! i) (owners ! i) (infos ! i) (deps ! i)"
  let ?ps = "List.map_filter ?f [0..<length ids]"
  let ?r = "\<lparr>UseV3PositionsResults.loading = False, error = False, positions = Some ?ps\<rparr>"
  have "useV3PositionsFromTokenIds env (Some ids) = Inr ?r \<and> positions ?r = Some ?ps"
    unfolding produced_iff using lens flags by (simp add: owners_def infos_def deps_def)
  then have returned: "useV3PositionsFromTokenIds env (Some ids) = Inr ?r"
    by (rule conjunct1)
  have dropped: "t \<notin> tokenId ` set ?ps"
  proof
    assume "t \<in> tokenId ` set ?ps"
    then obtain p where p: "p \<in> set ?ps" and t: "tokenId p = t" by auto
    from p have "\<exists>i\<in>set [0..<length ids]. ?f i = Some p"
      by (simp only: in_set_map_filter)
    then obtain i where "i \<in> set [0..<length ids]" and f: "?f i = Some p" ..
    then have i: "i < length ids" by simp
    from position_of_tokenId[OF f] t have "ids ! i = t" by simp
    with missing i have "result (owners ! i) = None \<or> result (infos ! i) = None"
      by (simp only:)
    then have "\<not> (truthy (result (owners ! i)) \<and> result (infos ! i) \<noteq> None)"
      by (auto simp: truthy_def)
    then have "?f i = None"
      unfolding position_of_None_iff .
    with f show False by (simp only: option.distinct)
  qed
  show ?thesis
  proof (intro exI conjI)
    show "useV3PositionsFromTokenIds env (Some ids) = Inr ?r" by (rule returned)
    show "t \<notin> tokenId ` set ?ps" by (rule dropped)
  qed
qed

theorem missing_results_are_dropped_witness:
  "\<exists>ps. useV3PositionsFromTokenIds ex_hooks (Some [1, 3, 2])
          = Inr \<lparr>UseV3PositionsResults.loading = False, error = False, positions = Some ps\<rparr> \<and>
        3 \<notin> tokenId ` set ps"
proof -
  have lens: "length [1, 3, 2 :: int] \<le> length (ownerOf_calls ex_hooks (inputs_of (Some [1, 3, 2]))) \<and>
      length [1, 3, 2 :: int] \<le> length (positions_calls ex_hooks (inputs_of (Some [1, 3, 2]))) \<and>
      length [1, 3, 2 :: int] \<le> length (deposits_calls ex_hooks (inputs_of (Some [1, 3, 2])))"
    by (simp add: ex_hooks_def inputs_of_def)
  have flags: "loading_error (AllIncentives.loading (useAllIncentives ex_hooks))
      (positions_calls ex_hooks (inputs_of (Some [1, 3, 2])))
      (ownerOf_calls ex_hooks (inputs_of (Some [1, 3, 2])))
      (deposits_calls ex_hooks (inputs_of (Some [1, 3, 2]))) = (False, False)"
    by (simp add: ex_hooks_def inputs_of_def loading_error_def ex_call_def)
  have missing: "\<forall>i<length [1, 3, 2 :: int]. [1, 3, 2 :: int] ! i = 3 \<longrightarrow>
      result (ownerOf_calls ex_hooks (inputs_of (Some [1, 3, 2])) ! i) = None \<or>
      result (positions_calls ex_hooks (inputs_of (Some [1, 3, 2])) ! i) = None"
    by (simp add: ex_hooks_def inputs_of_def ex_call_def All_less_Suc numeral_3_eq_3)
  show ?thesis
    by (rule missing_results_are_dropped [OF lens flags missing])
qed

text \<open>
  C2. Whenever the hook produces a list of positions, its positions are, in order, those
  of the kept indices of the input, and the position of an index has the staking-deposit
  owner as its owner and \<^verbatim>\<open>depositedInStaker\<close> true if that owner is present (read
  as the source reads it: defined and not the empty string) and is not the zero address;
  otherwise its owner is the direct owner and \<^verbatim>\<open>depositedInStaker\<close> is false.
\<close>

theorem owner_follows_staking_deposit:
  fixes env :: "'d Hooks" and ids :: "BigNumber list"
  defines "owners \<equiv> ownerOf_calls env (inputs_of (Some ids))"
  defines "infos \<equiv> positions_calls env (inputs_of (Some ids))"
  defines "deps \<equiv> deposits_calls env (inputs_of (Some ids))"
  assumes "useV3PositionsFromTokenIds env (Some ids) = Inr r" and "positions r = Some ps"
  shows "list_all2
           (\<lambda>p i. tokenId p = ids ! i \<and>
                  (if truthy (result (deps ! i)) \<and> result (deps ! i) \<noteq> Some AddressZero
                   then Some (owner p) = result (deps ! i) \<and> depositedInStaker p
                   else Some (owner p) = result (owners ! i) \<and> \<not> depositedInStaker p))
           ps (filter (kept owners infos) [0..<length ids])"
  unfolding owners_def infos_def deps_def
proof (rule list_all2_mono [OF produced_list_all2 [OF assms(4,5)]])
  fix p i
  assume f: "position_of (incentivesByPoolKey (AllIncentives.incentives (useAllIncentives env)))
               (ids ! i) (ownerOf_calls env (inputs_of (Some ids)) ! i)
               (positions_calls env (inputs_of (Some ids)) ! i)
               (deposits_calls env (inputs_of (Some ids)) ! i) = Some p"
  show "tokenId p = ids ! i \<and>
        (if truthy (result (deposits_calls env (inputs_of (Some ids)) ! i)) \<and>
            result (deposits_calls env (inputs_of (Some ids)) ! i) \<noteq> Some AddressZero
         then Some (owner p) = result (deposits_calls env (inputs_of (Some ids)) ! i) \<and>
              depositedInStaker p
         else Some (owner p) = result (ownerOf_calls env (inputs_of (Some ids)) ! i) \<and>
              \<not> depositedInStaker p)"
    by (rule conjI [OF position_of_tokenId [OF f] position_of_owner [OF f]])
qed

theorem owner_follows_staking_deposit_witness:
  "list_all2
     (\<lambda>p i. tokenId p = [1, 3, 2] ! i \<and>
            (if truthy (result (deposits_calls ex_hooks (inputs_of (Some [1, 3, 2])) ! i)) \<and>
                result (deposits_calls ex_hooks (inputs_of (Some [1, 3, 2])) ! i)
                  \<noteq> Some AddressZero
             then Some (owner p) = result (deposits_calls ex_hooks (inputs_of (Some [1, 3, 2])) ! i) \<and>
                  depositedInStaker p
             else Some (owner p) = result (ownerOf_calls ex_hooks (inputs_of (Some [1, 3, 2])) ! i) \<and>
                  \<not> depositedInStaker p))
     ex_positions
     (filter (kept (ownerOf_calls ex_hooks (inputs_of (Some [1, 3, 2])))
                (positions_calls ex_hooks (inputs_of (Some [1, 3, 2]))))
        [0..<length [1, 3, 2 :: int]])"
  by (rule owner_follows_staking_deposit [OF ex_run ex_run_positions])

text \<open>
  C3. The loading flag of the hook is true exactly if the incentives are loading or a call
  of one of the three batches is loading, its error flag is true exactly if a call of one
  of the three batches failed, and whenever one of the two flags is true the hook returns
  (it cannot throw) with no list of positions.
\<close>

theorem loading_and_error_flags:
  fixes env :: "'d Hooks" and ids :: "BigNumber list option"
  defines "inputs \<equiv> inputs_of ids"
  defines "L \<equiv> (AllIncentives.loading (useAllIncentives env) \<or>
                 (\<exists>c\<in>set (positions_calls env inputs). CallState.loading c) \<or>
                 (\<exists>c\<in>set (ownerOf_calls env inputs). CallState.loading c) \<or>
                 (\<exists>c\<in>set (deposits_calls env inputs). CallState.loading c))"
  defines "E \<equiv> ((\<exists>c\<in>set (positions_calls env inputs). CallState.error c) \<or>
                 (\<exists>c\<in>set (ownerOf_calls env inputs). CallState.error c) \<or>
                 (\<exists>c\<in>set (deposits_calls env inputs). CallState.error c))"
  shows "(\<forall>r. useV3PositionsFromTokenIds env ids = Inr r \<longrightarrow>
              (UseV3PositionsResults.loading r \<longleftrightarrow> L) \<and>
              (UseV3PositionsResults.error r \<longleftrightarrow> E) \<and>
              (L \<or> E \<longrightarrow> positions r = None)) \<and>
         (L \<or> E \<longrightarrow>
            useV3PositionsFromTokenIds env ids
              = Inr \<lparr>UseV3PositionsResults.loading = L, error = E, positions = None\<rparr>)"
proof -
  have le: "loading_error (AllIncentives.loading (useAllIncentives env))
              (positions_calls env inputs) (ownerOf_calls env inputs) (deposits_calls env inputs)
            = (L, E)"
    by (simp add: loading_error_def list_ex_iff L_def E_def)
  have memo: "positions_memo L E ids oc ic dc byKey = Inr None" if "L \<or> E"
    for oc ic dc and byKey :: "string \<rightharpoonup> 'd Incentive list"
    using that by (auto simp: positions_memo_def split: option.splits)
  have memo': "ps = None" if "positions_memo L E ids oc ic dc byKey = Inr ps" "L \<or> E"
    for oc ic dc ps and byKey :: "string \<rightharpoonup> 'd Incentive list"
    using that memo by simp
  show ?thesis
    unfolding hook_Inr_iff
    unfolding inputs_def [symmetric] le fst_conv snd_conv
    by (auto simp: memo dest: memo')
qed

theorem loading_and_error_flags_witness:
  "useV3PositionsFromTokenIds ex_hooks (Some [1, 7])
     = Inr \<lparr>UseV3PositionsResults.loading = False, error = True, positions = None\<rparr>"
  using loading_and_error_flags [of ex_hooks "Some [1, 7]"]
  by (simp add: ex_hooks_def ex_call_def inputs_of_def)

text \<open>
  C9. Whenever the hook produces a list of positions, the identifiers of its positions
  are the input identifiers at the kept indices, in the order of the input: each
  position has the identifier of the index it comes from, the list of the identifiers is
  a subsequence of the input, holds no new identifier, and is no longer than the input.
\<close>

theorem output_preserves_order:
  fixes env :: "'d Hooks" and ids :: "BigNumber list"
  defines "owners \<equiv> ownerOf_calls env (inputs_of (Some ids))"
  defines "infos \<equiv> positions_calls env (inputs_of (Some ids))"
  assumes "useV3PositionsFromTokenIds env (Some ids) = Inr r" and "positions r = Some ps"
  shows "list_all2 (\<lambda>p i. tokenId p = ids ! i) ps (filter (kept owners infos) [0..<length ids]) \<and>
         map tokenId ps = nths ids {i. kept owners infos i} \<and>
         subseq (map tokenId ps) ids \<and>
         set (map tokenId ps) \<subseteq> set ids \<and>
         length ps \<le> length ids"
proof -
  let ?js = "filter (kept owners infos) [0..<length ids]"
  have a: "list_all2 (\<lambda>p i. tokenId p = ids ! i) ps ?js"
    unfolding owners_def infos_def
    by (rule list_all2_mono [OF produced_list_all2 [OF assms(3,4)]]) (rule position_of_tokenId)
  then have m: "map tokenId ps = map ((!) ids) ?js"
    by (rule list_all2_map_eq)
  have s: "subseq (map tokenId ps) ids"
    unfolding m by (rule subseq_filter_upt)
  have n: "map tokenId ps = nths ids {i. kept owners infos i}"
    unfolding m by (rule nths_filter_upt)
  have st: "set (map tokenId ps) \<subseteq> set ids"
    unfolding n by (rule set_nths_subset)
  have "length (map tokenId ps) \<le> length ids"
    using s by (rule list_emb_length)
  then have l: "length ps \<le> length ids" by simp
  from a n s st l show ?thesis by (intro conjI)
qed

theorem output_preserves_order_witness:
  "list_all2 (\<lambda>p i. tokenId p = [1, 3, 2] ! i) ex_positions
     (filter (kept (ownerOf_calls ex_hooks (inputs_of (Some [1, 3, 2])))
                (positions_calls ex_hooks (inputs_of (Some [1, 3, 2]))))
        [0..<length [1, 3, 2 :: int]]) \<and>
   map tokenId ex_positions
     = nths [1, 3, 2] {i. kept (ownerOf_calls ex_hooks (inputs_of (Some [1, 3, 2])))
                            (positions_calls ex_hooks (inputs_of (Some [1, 3, 2]))) i} \<and>
   subseq (map tokenId ex_positions) [1, 3, 2] \<and>
   set (map tokenId ex_positions) \<subseteq> set [1, 3, 2] \<and>
   length ex_positions \<le> length [1, 3, 2 :: int]"
  by (rule output_preserves_order [OF ex_run ex_run_positions])

text \<open>
  C7. Whenever the hook produces a list of positions, the incentives of each of its
  positions are the incentives of the source list whose pool key is the pool key of the
  position, in the order of the source list (none if the source list is undefined or no
  key matches). Where no address holds the separator of the keys, two keys are equal
  exactly if the token addresses and the fee tiers are, so the incentives are those whose
  pool has the position's token0, token1 and fee.
\<close>

theorem incentives_of_position:
  fixes env :: "'d Hooks" and ids :: "BigNumber list"
  defines "source \<equiv> (case AllIncentives.incentives (useAllIncentives env) of
                        None \<Rightarrow> [] | Some l \<Rightarrow> l)"
  assumes "useV3PositionsFromTokenIds env (Some ids) = Inr r" and "positions r = Some ps"
    and "p \<in> set ps"
  shows "PositionDetails.incentives p
           = filter (\<lambda>inc. incentive_key inc
                             = toPoolKey (Str (token0 p)) (Str (token1 p)) (fee p)) source \<and>
         (dash_free (token0 p) \<and> dash_free (token1 p) \<and>
          (\<forall>inc\<in>set source. dash_free (address (Pool.token0 (pool inc))) \<and>
                              dash_free (address (Pool.token1 (pool inc)))) \<longrightarrow>
          PositionDetails.incentives p
            = filter (\<lambda>inc. address (Pool.token0 (pool inc)) = token0 p \<and>
                            address (Pool.token1 (pool inc)) = token1 p \<and>
                            Pool.fee (pool inc) = fee p) source)"
proof -
  from produced_member[OF assms(2,3,4)] obtain i where
    f: "position_of (incentivesByPoolKey (AllIncentives.incentives (useAllIncentives env)))
             (ids ! i) (ownerOf_calls env (inputs_of (Some ids)) ! i)
             (positions_calls env (inputs_of (Some ids)) ! i)
             (deposits_calls env (inputs_of (Some ids)) ! i) = Some p"
    by blast
  have a: "PositionDetails.incentives p
           = filter (\<lambda>inc. incentive_key inc
                             = toPoolKey (Str (token0 p)) (Str (token1 p)) (fee p)) source"
    unfolding position_of_incentives[OF f] incentivesByPoolKey_lookup source_def ..
  have b: "filter (\<lambda>inc. incentive_key inc
                             = toPoolKey (Str (token0 p)) (Str (token1 p)) (fee p)) source
            = filter (\<lambda>inc. address (Pool.token0 (pool inc)) = token0 p \<and>
                            address (Pool.token1 (pool inc)) = token1 p \<and>
                            Pool.fee (pool inc) = fee p) source"
    if d: "dash_free (token0 p)" "dash_free (token1 p)"
         "\<forall>inc\<in>set source. dash_free (address (Pool.token0 (pool inc))) \<and>
                              dash_free (address (Pool.token1 (pool inc)))"
  proof (rule filter_cong [OF refl])
    fix inc assume "inc \<in> set source"
    with d(3) have "dash_free (token_address (Tok (Pool.token0 (pool inc))))"
        "dash_free (token_address (Tok (Pool.token1 (pool inc))))"
      by (simp_all add: token_address_def)
    moreover from d(1,2) have "dash_free (token_address (Str (token0 p)))"
        "dash_free (token_address (Str (token1 p)))"
      by (simp_all add: token_address_def)
    ultimately show "(incentive_key inc = toPoolKey (Str (token0 p)) (Str (token1 p)) (fee p))
         = (address (Pool.token0 (pool inc)) = token0 p \<and>
            address (Pool.token1 (pool inc)) = token1 p \<and> Pool.fee (pool inc) = fee p)"
      unfolding incentive_key_def by (simp add: toPoolKey_inj token_address_def)
  qed
  from a b show ?thesis by simp
qed

theorem incentives_of_position_witness:
  "PositionDetails.incentives (ex_positions ! 0)
     = filter (\<lambda>inc. address (Pool.token0 (pool inc)) = ''0xA'' \<and>
                     address (Pool.token1 (pool inc)) = ''0xB'' \<and>
                     Pool.fee (pool inc) = 500) ex_incentives \<and>
   PositionDetails.incentives (ex_positions ! 0) = [ex_incentives ! 0, ex_incentives ! 2]"
proof -
  have mem: "ex_positions ! 0 \<in> set ex_positions"
    by (simp add: ex_positions_def)
  have src: "(case AllIncentives.incentives (useAllIncentives ex_hooks) of
                None \<Rightarrow> [] | Some l \<Rightarrow> l) = ex_incentives"
    by (simp add: ex_hooks_def)
  have p: "token0 (ex_positions ! 0) = ''0xA''" "token1 (ex_positions ! 0) = ''0xB''"
      "fee (ex_positions ! 0) = 500"
    by (simp_all add: ex_positions_def ex_position_def ex_info_def PositionInfo.defs
          PositionDetails.defs)
  have d: "dash_free ''0xA'' \<and> dash_free ''0xB'' \<and>
      (\<forall>inc\<in>set ex_incentives. dash_free (address (Pool.token0 (pool inc))) \<and>
                              dash_free (address (Pool.token1 (pool inc))))"
    by (simp add: dash_free_def ex_incentives_def ex_pool_def)
  from incentives_of_position [OF ex_run ex_run_positions mem, unfolded src p] d
  have "PositionDetails.incentives (ex_positions ! 0)
     = filter (\<lambda>inc. address (Pool.token0 (pool inc)) = ''0xA'' \<and>
                     address (Pool.token1 (pool inc)) = ''0xB'' \<and>
                     Pool.fee (pool inc) = 500) ex_incentives"
    by blast
  moreover have "filter (\<lambda>inc. address (Pool.token0 (pool inc)) = ''0xA'' \<and>
                     address (Pool.token1 (pool inc)) = ''0xB'' \<and>
                     Pool.fee (pool inc) = 500) ex_incentives = [ex_incentives ! 0, ex_incentives ! 2]"
    by (simp add: ex_incentives_def ex_pool_def)
  ultimately show ?thesis by simp
qed

section \<open>Properties of useV3Positions\<close>

text \<open>
  C8. For an account (a non-empty string) whose reported balance is a number \<open>b\<close>
  that is not negative and fits 53 bits, \<^verbatim>\<open>useV3Positions\<close> issues the requests for the
  token identifiers with the account and the indices 0 to \<open>b - 1\<close>, in this order:
  \<open>b\<close> requests, and for the balance 2 the two requests with the indices 0 and 1.
  The hook applies the batched call \<^verbatim>\<open>tokenOfOwnerByIndex\<close> to this list of requests:
  what it returns is made of the call states of these requests (their results are the
  enumerated identifiers, and one of them loading makes the hook loading), and it
  returns the same whatever the batched call would answer to any other list of
  requests. The deposits in the staker have no part in the requests.
\<close>

theorem tokenId_requests_by_index:
  fixes env :: "'d Hooks" and a :: string and b :: int
  defines "requests \<equiv> map (\<lambda>i. (a, int i)) [0..<nat b]"
  defines "deposited \<equiv> (case tokenIds (useDepositedTokenIds env (Some a)) of
                           None \<Rightarrow> [] | Some l \<Rightarrow> l)"
  assumes "a \<noteq> []" and "result (balanceOf_call env (Some a)) = Some b"
    and "0 \<le> b" and "b < 2 ^ 53"
  shows "accountBalance env (Some a) = Inr (Some b) \<and>
         tokenIdsArgs (Some a) (Some b) = requests \<and>
         length requests = nat b \<and>
         (b = 2 \<longrightarrow> requests = [(a, 0), (a, 1)]) \<and>
         useV3Positions env (Some a) =
           (case useV3PositionsFromTokenIds env
                   (Some (List.map_filter result (tokenOfOwnerByIndex_calls env requests)
                            @ deposited)) of
              Inl e \<Rightarrow> Inl e
            | Inr r \<Rightarrow>
                Inr \<lparr>UseV3PositionsResults.loading =
                       ((state (useDepositedTokenIds env (Some a)) = LOADING \<or>
                         (\<exists>c\<in>set (tokenOfOwnerByIndex_calls env requests).
                            CallState.loading c)) \<or>
                        CallState.loading (balanceOf_call env (Some a)) \<or>
                        UseV3PositionsResults.loading r),
                     error = UseV3PositionsResults.error r,
                     positions = positions r\<rparr>) \<and>
         (\<forall>f. f requests = tokenOfOwnerByIndex_calls env requests \<longrightarrow>
              useV3Positions (env\<lparr>tokenOfOwnerByIndex_calls := f\<rparr>) (Some a)
                = useV3Positions env (Some a))"
proof -
  from assms(3-6) have bal: "accountBalance env (Some a) = Inr (Some b)"
    by (simp add: accountBalance_def toNumber_def)
  from assms(3) have args: "tokenIdsArgs (Some a) (Some b) = requests"
    by (simp add: tokenIdsArgs_def requests_def)
  have len: "length requests = nat b"
    by (simp add: requests_def)
  have two: "requests = [(a, 0), (a, 1)]" if "b = 2"
    using that by (simp add: requests_def numeral_2_eq_2)
  from assms(3) have acc: "truthy (Some a)"
    by (simp add: truthy_def)
  have run: "useV3Positions env (Some a) =
           (case useV3PositionsFromTokenIds env
                   (Some (List.map_filter result (tokenOfOwnerByIndex_calls env requests)
                            @ deposited)) of
              Inl e \<Rightarrow> Inl e
            | Inr r \<Rightarrow>
                Inr \<lparr>UseV3PositionsResults.loading =
                       ((state (useDepositedTokenIds env (Some a)) = LOADING \<or>
                         (\<exists>c\<in>set (tokenOfOwnerByIndex_calls env requests).
                            CallState.loading c)) \<or>
                        CallState.loading (balanceOf_call env (Some a)) \<or>
                        UseV3PositionsResults.loading r),
                     error = UseV3PositionsResults.error r,
                     positions = positions r\<rparr>)"
    unfolding useV3Positions_unfold [OF bal] args tokenIds_memo_truthy [OF acc] list_ex_iff
      deposited_def ..
  have same: "useV3Positions (env\<lparr>tokenOfOwnerByIndex_calls := f\<rparr>) (Some a)
                = useV3Positions env (Some a)"
    if f: "f requests = tokenOfOwnerByIndex_calls env requests" for f
  proof -
    have bal': "accountBalance (env\<lparr>tokenOfOwnerByIndex_calls := f\<rparr>) (Some a) = Inr (Some b)"
      using bal by (simp add: accountBalance_def)
    have sel: "useDepositedTokenIds (env\<lparr>tokenOfOwnerByIndex_calls := f\<rparr>)
                 = useDepositedTokenIds env"
        "balanceOf_call (env\<lparr>tokenOfOwnerByIndex_calls := f\<rparr>) = balanceOf_call env"
        "tokenOfOwnerByIndex_calls (env\<lparr>tokenOfOwnerByIndex_calls := f\<rparr>) requests
           = tokenOfOwnerByIndex_calls env requests"
      by (simp_all add: f)
    show ?thesis
      unfolding useV3Positions_unfold [OF bal'] useV3Positions_unfold [OF bal] args
        hook_ignores_tokenOfOwnerByIndex sel ..
  qed
  from bal args len two run same show ?thesis by blast
qed

theorem tokenId_requests_by_index_witness:
  "accountBalance ex_hooks (Some ''0xU'') = Inr (Some 2) \<and>
   tokenIdsArgs (Some ''0xU'') (Some 2) = [(''0xU'', 0), (''0xU'', 1)] \<and>
   length [(''0xU'', 0 :: int), (''0xU'', 1)] = nat 2 \<and>
   useV3Positions ex_hooks (Some ''0xU'') =
     (case useV3PositionsFromTokenIds ex_hooks (Some ([1, 4] @ [2, 5, 4])) of
        Inl e \<Rightarrow> Inl e
      | Inr r \<Rightarrow>
          Inr \<lparr>UseV3PositionsResults.loading =
                 ((state (useDepositedTokenIds ex_hooks (Some ''0xU'')) = LOADING \<or>
                   (\<exists>c\<in>set (tokenOfOwnerByIndex_calls ex_hooks [(''0xU'', 0), (''0xU'', 1)]).
                      CallState.loading c)) \<or>
                  CallState.loading (balanceOf_call ex_hooks (Some ''0xU'')) \<or>
                  UseV3PositionsResults.loading r),
               error = UseV3PositionsResults.error r,
               positions = positions r\<rparr>) \<and>
   useV3Positions
     (ex_hooks\<lparr>tokenOfOwnerByIndex_calls :=
                 (\<lambda>args. if args = [(''0xU'', 0), (''0xU'', 1)]
                         then tokenOfOwnerByIndex_calls ex_hooks args else [])\<rparr>)
     (Some ''0xU'')
     = useV3Positions ex_hooks (Some ''0xU'')"
proof -
  have a: "''0xU'' \<noteq> []" by simp
  have b: "result (balanceOf_call ex_hooks (Some ''0xU'')) = Some 2"
    by (simp add: ex_hooks_def ex_call_def)
  have c: "(0 :: int) \<le> 2" "(2 :: int) < 2 ^ 53" by simp_all
  have req: "map (\<lambda>i. (''0xU'', int i)) [0..<nat 2] = [(''0xU'', 0), (''0xU'', 1)]"
    by (simp add: numeral_2_eq_2)
  note t = tokenId_requests_by_index [OF a b c, unfolded req]
  let ?f = "\<lambda>args. if args = [(''0xU'', 0 :: int), (''0xU'', 1)]
                   then tokenOfOwnerByIndex_calls ex_hooks args else []"
  have f: "?f [(''0xU'', 0), (''0xU'', 1)]
             = tokenOfOwnerByIndex_calls ex_hooks [(''0xU'', 0), (''0xU'', 1)]"
    by simp
  note rest = t [THEN conjunct2, THEN conjunct2, THEN conjunct2, THEN conjunct2]
  have same: "useV3Positions (ex_hooks\<lparr>tokenOfOwnerByIndex_calls := ?f\<rparr>) (Some ''0xU'')
                = useV3Positions ex_hooks (Some ''0xU'')"
    by (rule mp [OF spec [OF rest [THEN conjunct2], of ?f] f])
  have 1: "accountBalance ex_hooks (Some ''0xU'') = Inr (Some 2)"
    by (rule t [THEN conjunct1])
  have 2: "tokenIdsArgs (Some ''0xU'') (Some 2) = [(''0xU'', 0), (''0xU'', 1)]"
    by (rule t [THEN conjunct2, THEN conjunct1])
  have 3: "length [(''0xU'', 0 :: int), (''0xU'', 1)] = nat 2"
    by (rule t [THEN conjunct2, THEN conjunct2, THEN conjunct1])
  have e: "List.map_filter result
             (tokenOfOwnerByIndex_calls ex_hooks [(''0xU'', 0), (''0xU'', 1)]) = [1, 4]"
    by (simp add: ex_hooks_def ex_call_def List.map_filter_simps)
  have d: "(case tokenIds (useDepositedTokenIds ex_hooks (Some ''0xU'')) of
              None \<Rightarrow> [] | Some l \<Rightarrow> l) = [2, 5, 4]"
    by (simp add: ex_hooks_def)
  note run = rest [THEN conjunct1, unfolded e d]
  from 1 2 3 run same show ?thesis by (intro conjI)
qed



text \<open>
  C10. For an account that is null, undefined (or the empty string), whose reported
  balance, if there is one, fits 53 bits, \<^verbatim>\<open>useV3Positions\<close> resolves the empty list of
  token identifiers, and if the incentives are not loading and no call of the three
  batches is loading or failed, it returns the empty list of positions, not undefined,
  and no error.
\<close>

theorem no_account_no_positions:
  assumes acc: "\<not> truthy account"
    and fits: "\<forall>b. result (balanceOf_call env account) = Some b \<longrightarrow> \<bar>b\<bar> < 2 ^ 53"
    and flags: "loading_error (AllIncentives.loading (useAllIncentives env))
                  (positions_calls env []) (ownerOf_calls env []) (deposits_calls env [])
                = (False, False)"
  shows "resolved_tokenIds env account = Inr [] \<and>
         (\<exists>l. useV3Positions env account
                = Inr \<lparr>UseV3PositionsResults.loading = l, error = False, positions = Some []\<rparr>)"
proof -
  note bal = accountBalance_fits [OF fits]
  have 1: "resolved_tokenIds env account = Inr []"
    unfolding resolved_tokenIds_def bal tokenIds_memo_falsy [OF acc] by simp
  have 2: "\<exists>l. useV3Positions env account
                = Inr \<lparr>UseV3PositionsResults.loading = l, error = False, positions = Some []\<rparr>"
    unfolding useV3Positions_Inr_iff [OF bal] tokenIds_memo_falsy [OF acc] hook_empty flags
    by simp
  from 1 2 show ?thesis ..
qed

theorem no_account_no_positions_witness:
  "resolved_tokenIds ex_hooks None = Inr [] \<and>
   (\<exists>l. useV3Positions ex_hooks None
          = Inr \<lparr>UseV3PositionsResults.loading = l, error = False, positions = Some []\<rparr>)"
proof -
  have acc: "\<not> truthy None"
    by (simp add: truthy_def)
  have fits: "\<forall>b. result (balanceOf_call ex_hooks None) = Some b \<longrightarrow> \<bar>b\<bar> < 2 ^ 53"
    by (simp add: ex_hooks_def ex_call_def)
  have flags: "loading_error (AllIncentives.loading (useAllIncentives ex_hooks))
                  (positions_calls ex_hooks []) (ownerOf_calls ex_hooks [])
                  (deposits_calls ex_hooks []) = (False, False)"
    by (simp add: ex_hooks_def loading_error_def)
  show ?thesis
    by (rule no_account_no_positions [OF acc fits flags])
qed

section \<open>Properties of useV3PositionsForPool\<close>

text \<open>
  C4, as the source has it. When \<^verbatim>\<open>useV3Positions\<close> returns positions and reports that
  it is loading, the hook classifies the positions of the target pool: the in-range
  positions are those with two numeric bounds and \<open>tickLower \<le> tickCurrent < tickUpper\<close>,
  the out-of-range positions are the positions of the pool that are not in range, and so
  a position of the pool with a bound that is not a number is not in range and is out of
  range.
\<close>

theorem range_classification:
  assumes "useV3Positions env account = Inr agg" and "positions agg = Some ps"
    and "UseV3PositionsResults.loading agg"
  shows "\<exists>ins outs.
           useV3PositionsForPool env account (Some pl)
             = Inr \<lparr>PositionsForPoolResults.loading = False, inRangePositions = Some ins,
                    outOfRangePositions = Some outs\<rparr> \<and>
           ins = filter (\<lambda>p. case (tickLower p, tickUpper p) of
                                (Some lo, Some hi) \<Rightarrow> lo \<le> tickCurrent pl \<and> tickCurrent pl < hi
                              | _ \<Rightarrow> False)
                   (filter (relevant pl) ps) \<and>
           outs = filter (\<lambda>p. p \<notin> set ins) (filter (relevant pl) ps) \<and>
           (\<forall>p\<in>set ps. relevant pl p \<and> (tickLower p = None \<or> tickUpper p = None) \<longrightarrow>
                         p \<notin> set ins \<and> p \<in> set outs)"
proof -
  let ?rel = "filter (relevant pl) ps"
  let ?ins = "filter (within_range pl) ?rel"
  let ?outs = "filter (\<lambda>p. \<not> within_range pl p) ?rel"
  have run: "useV3PositionsForPool env account (Some pl)
             = Inr \<lparr>PositionsForPoolResults.loading = False, inRangePositions = Some ?ins,
                    outOfRangePositions = Some ?outs\<rparr>"
    unfolding useV3PositionsForPool_def assms(1)
    by (simp add: positionsForPool_classified [OF assms(2,3)])
  have ins: "?ins = filter (\<lambda>p. case (tickLower p, tickUpper p) of
                                (Some lo, Some hi) \<Rightarrow> lo \<le> tickCurrent pl \<and> tickCurrent pl < hi
                              | _ \<Rightarrow> False) ?rel"
    by (rule filter_cong [OF refl]) (rule within_range_iff)
  have outs: "?outs = filter (\<lambda>p. p \<notin> set ?ins) ?rel"
    by (rule filter_cong [OF refl]) simp
  have non: "p \<notin> set ?ins \<and> p \<in> set ?outs"
    if "p \<in> set ps" "relevant pl p \<and> (tickLower p = None \<or> tickUpper p = None)" for p
  proof -
    from that(2) have "\<not> within_range pl p"
      by (auto simp: within_range_iff split: option.splits)
    with that show ?thesis by simp
  qed
  show ?thesis
  proof (intro exI conjI)
    show "useV3PositionsForPool env account (Some pl)
             = Inr \<lparr>PositionsForPoolResults.loading = False, inRangePositions = Some ?ins,
                    outOfRangePositions = Some ?outs\<rparr>" by (rule run)
    show "?ins = filter (\<lambda>p. case (tickLower p, tickUpper p) of
                                (Some lo, Some hi) \<Rightarrow> lo \<le> tickCurrent pl \<and> tickCurrent pl < hi
                              | _ \<Rightarrow> False) ?rel" by (rule ins)
    show "?outs = filter (\<lambda>p. p \<notin> set ?ins) ?rel" by (rule outs)
    show "\<forall>p\<in>set ps. relevant pl p \<and> (tickLower p = None \<or> tickUpper p = None) \<longrightarrow>
                         p \<notin> set ?ins \<and> p \<in> set ?outs"
      using non by blast
  qed
qed

theorem range_classification_witness:
  "\<exists>ins outs.
     useV3PositionsForPool ex_pending (Some ''0xU'') (Some (ex_pool ''0xA'' ''0xB'' 500 150))
       = Inr \<lparr>PositionsForPoolResults.loading = False, inRangePositions = Some ins,
              outOfRangePositions = Some outs\<rparr> \<and>
     outs = filter (\<lambda>p. p \<notin> set ins)
              (filter (relevant (ex_pool ''0xA'' ''0xB'' 500 150)) ex_pending_positions) \<and>
     ex_pending_positions ! 0 \<notin> set ins \<and> ex_pending_positions ! 0 \<in> set outs"
proof -
  have pos: "positions \<lparr>UseV3PositionsResults.loading = True, error = False,
                         positions = Some ex_pending_positions\<rparr> = Some ex_pending_positions"
    by simp
  have ld: "UseV3PositionsResults.loading
              \<lparr>UseV3PositionsResults.loading = True, error = False,
               positions = Some ex_pending_positions\<rparr>"
    by simp
  from range_classification [OF ex_pending_run pos ld, of "ex_pool ''0xA'' ''0xB'' 500 150"]
    ex_pending_nonnumeric
  show ?thesis by blast
qed

text \<open>
  C4 as stated fails: in \<open>ex_pending\<close> the position 2 of the pool has no numeric lower
  bound and is in the out-of-range list, not excluded from both lists.
\<close>

theorem nonnumeric_bound_counterexample:
  "tickLower (ex_pending_positions ! 0) = None \<and>
   useV3PositionsForPool ex_pending (Some ''0xU'') (Some (ex_pool ''0xA'' ''0xB'' 500 150))
     = Inr \<lparr>PositionsForPoolResults.loading = False,
            inRangePositions = Some [ex_pending_positions ! 1],
            outOfRangePositions = Some [ex_pending_positions ! 0]\<rparr>"
proof
  show "tickLower (ex_pending_positions ! 0) = None"
    using ex_pending_nonnumeric by (rule conjunct2 [THEN conjunct2])
  show "useV3PositionsForPool ex_pending (Some ''0xU'') (Some (ex_pool ''0xA'' ''0xB'' 500 150))
     = Inr \<lparr>PositionsForPoolResults.loading = False,
            inRangePositions = Some [ex_pending_positions ! 1],
            outOfRangePositions = Some [ex_pending_positions ! 0]\<rparr>"
    unfolding useV3PositionsForPool_def ex_pending_run
    by (simp only: sum.case ex_pending_pool)
qed

text \<open>
  C5. The hook returns no classification (both lists undefined, loading false) whenever
  \<^verbatim>\<open>useV3Positions\<close> reports that it is not loading, or returns no positions, or the pool
  is undefined; it returns the two lists exactly when \<^verbatim>\<open>useV3Positions\<close> still reports
  loading while its positions and the pool are defined; and the loading flag it returns
  is always false.
\<close>

theorem pool_classification_guard:
  "(\<forall>agg. useV3Positions env account = Inr agg \<and>
           (\<not> UseV3PositionsResults.loading agg \<or> positions agg = None \<or> pool' = None) \<longrightarrow>
           useV3PositionsForPool env account pool'
             = Inr \<lparr>PositionsForPoolResults.loading = False, inRangePositions = None,
                    outOfRangePositions = None\<rparr>) \<and>
   (\<forall>agg. useV3Positions env account = Inr agg \<and> UseV3PositionsResults.loading agg \<and>
           positions agg \<noteq> None \<and> pool' \<noteq> None \<longrightarrow>
           (\<exists>ins outs. useV3PositionsForPool env account pool'
                         = Inr \<lparr>PositionsForPoolResults.loading = False,
                                inRangePositions = Some ins, outOfRangePositions = Some outs\<rparr>)) \<and>
   (\<forall>out. useV3PositionsForPool env account pool' = Inr out \<longrightarrow>
           \<not> PositionsForPoolResults.loading out \<and>
           (\<exists>agg. useV3Positions env account = Inr agg))"
proof (intro conjI allI impI)
  fix agg
  assume "useV3Positions env account = Inr agg \<and>
           (\<not> UseV3PositionsResults.loading agg \<or> positions agg = None \<or> pool' = None)"
  then show "useV3PositionsForPool env account pool'
             = Inr \<lparr>PositionsForPoolResults.loading = False, inRangePositions = None,
                    outOfRangePositions = None\<rparr>"
    by (simp add: useV3PositionsForPool_def positionsForPool_guarded)
next
  fix agg
  assume a: "useV3Positions env account = Inr agg \<and> UseV3PositionsResults.loading agg \<and>
           positions agg \<noteq> None \<and> pool' \<noteq> None"
  then obtain ps pl where "positions agg = Some ps" "pool' = Some pl" by auto
  with a show "\<exists>ins outs. useV3PositionsForPool env account pool'
                         = Inr \<lparr>PositionsForPoolResults.loading = False,
                                inRangePositions = Some ins, outOfRangePositions = Some outs\<rparr>"
    by (simp add: useV3PositionsForPool_def positionsForPool_classified)
next
  fix out
  assume o: "useV3PositionsForPool env account pool' = Inr out"
  then obtain agg where agg: "useV3Positions env account = Inr agg"
    and out: "out = positionsForPool agg pool'"
    by (auto simp: useV3PositionsForPool_def split: sum.splits)
  show "\<not> PositionsForPoolResults.loading out"
    unfolding out by (auto simp: positionsForPool_def Let_def split: option.splits)
  from agg show "\<exists>agg. useV3Positions env account = Inr agg" ..
qed

theorem pool_classification_guard_witness:
  "useV3PositionsForPool ex_hooks None (Some (ex_pool ''0xA'' ''0xB'' 500 150))
     = Inr \<lparr>PositionsForPoolResults.loading = False, inRangePositions = None,
            outOfRangePositions = None\<rparr> \<and>
   (\<exists>ins outs.
      useV3PositionsForPool ex_pending (Some ''0xU'') (Some (ex_pool ''0xA'' ''0xB'' 500 150))
        = Inr \<lparr>PositionsForPoolResults.loading = False, inRangePositions = Some ins,
               outOfRangePositions = Some outs\<rparr>)"
proof
  show "useV3PositionsForPool ex_hooks None (Some (ex_pool ''0xA'' ''0xB'' 500 150))
     = Inr \<lparr>PositionsForPoolResults.loading = False, inRangePositions = None,
            outOfRangePositions = None\<rparr>"
    using pool_classification_guard [of ex_hooks None "Some (ex_pool ''0xA'' ''0xB'' 500 150)"]
      ex_loaded_run
    by simp
  show "\<exists>ins outs.
      useV3PositionsForPool ex_pending (Some ''0xU'') (Some (ex_pool ''0xA'' ''0xB'' 500 150))
        = Inr \<lparr>PositionsForPoolResults.loading = False, inRangePositions = Some ins,
               outOfRangePositions = Some outs\<rparr>"
    using pool_classification_guard
            [of ex_pending "Some ''0xU''" "Some (ex_pool ''0xA'' ''0xB'' 500 150)"]
      ex_pending_run
    by simp
qed

end
